theory Spec2Isabelle
  imports
    Main
    "HOL-Library.Char_ord"
    "HOL-Library.List_Lexorder"
    "HOL-Library.FSet"
    "HOL-Library.Finite_Map"
begin

section \<open>Data model of package core\<close>

text \<open>
  A Go \<open>string\<close> is a sequence of bytes; \<^typ>\<open>string\<close> is a list of 8-bit characters.
  Go compares strings byte by byte, unsigned, a proper prefix being smaller: this is the
  order that \<open>Char_ord\<close> and \<open>List_Lexorder\<close> put on \<^typ>\<open>string\<close>.
  A Go map is a finite map (\<open>fmap\<close>); a nil map and a nil slice read like the empty ones
  and are modelled by \<^const>\<open>fmempty\<close> and \<open>[]\<close>. Go's \<open>int\<close> is \<^typ>\<open>int\<close>: the only
  integers of the core are positions in a slice, far from the 64-bit bounds.
  \<open>template.HTML\<close> is a string type; the conversion keeps the bytes.
\<close>

record Entry =
  Slug :: string
  DisplayTitle :: string
  NormalizedTitle :: string
  Content :: string

record SemanticField =
  Title :: string
  Body :: string
  Path :: string

record LetterEntry =
  le_Slug :: string
  le_DisplayTitle :: string

record PageData =
  PlainTextTitle :: string
  PageType :: string
  Letters :: "string list"
  PrevSlug :: string
  NextSlug :: string
  Letter :: string
  PrevLetter :: string
  NextLetter :: string
  Entries :: "LetterEntry list"
  GlossaryLetters :: "string list"
  GlossaryContent :: "(string, string) fmap"
  ContentHTML :: string

text \<open>The process-wide variables of package core, as one state value.\<close>

record globals =
  AllEntries :: "Entry list"
  entryIndexBySlug :: "(string, int) fmap"
  DictionaryLetters :: "string list"
  Glossary :: "(string, string) fmap"
  SemanticFields :: "SemanticField list"

text \<open>The anonymous struct that \<open>LoadDataFromFile\<close> decodes the JSON document into.\<close>

record decoded =
  data_Entries :: "Entry list"
  data_SemanticFields :: "SemanticField list"
  data_Glossary :: "(string, string) fmap"

section \<open>Go primitives used by the core\<close>

datatype panic = IndexOutOfRange

text \<open>\<open>xs[i]\<close> on a slice or a string: a run-time panic outside \<open>0 \<le> i < len(xs)\<close>.\<close>

definition index_at :: "'a list \<Rightarrow> int \<Rightarrow> panic + 'a" where
  "index_at xs i =
     (if 0 \<le> i \<and> i < int (length xs) then Inr (xs ! nat i) else Inl IndexOutOfRange)"

text \<open>
  \<open>string(b)\<close> for a byte \<open>b\<close>: Go converts an integer to the UTF-8 encoding of the code
  point of that value, so a byte below 0x80 gives the one-byte string and a byte from
  0x80 up gives two bytes.
\<close>

definition string_of_byte :: "char \<Rightarrow> string" where
  "string_of_byte b =
     (if (of_char b :: nat) < 128 then [b]
      else [char_of (192 + (of_char b :: nat) div 64), char_of (128 + (of_char b :: nat) mod 64)])"

definition template_HTML :: "string \<Rightarrow> string" where
  "template_HTML s = s"

text \<open>
  \<open>slices.Sorted(maps.Keys(m))\<close>: the keys of a map, whose iteration order is not
  specified, collected and sorted ascending.
\<close>

definition maps_Keys :: "(string, 'v) fmap \<Rightarrow> string fset" where
  "maps_Keys m = fmdom m"

definition slices_Sorted :: "string fset \<Rightarrow> string list" where
  "slices_Sorted ks = sorted_list_of_fset ks"

text \<open>\<open>slices.Index(xs, v)\<close>: the first position of \<open>v\<close> in \<open>xs\<close>, or -1.\<close>

fun slices_Index :: "string list \<Rightarrow> string \<Rightarrow> int" where
  "slices_Index [] v = -1"
| "slices_Index (x # xs) v =
     (if x = v then 0
      else (let r = slices_Index xs v in if r < 0 then -1 else r + 1))"

section \<open>Loading and index construction\<close>

text \<open>
  The body of the \<open>for i, entry := range AllEntries\<close> loop of \<open>LoadDataFromFile\<close>, from
  position \<open>i\<close> on: the slug index and the letter map are updated entry by entry.
\<close>

fun index_loop ::
  "Entry list \<Rightarrow> int \<Rightarrow> (string, int) fmap \<times> (string, bool) fmap \<Rightarrow>
   (string, int) fmap \<times> (string, bool) fmap" where
  "index_loop [] i (idx, letterMap) = (idx, letterMap)"
| "index_loop (entry # rest) i (idx, letterMap) =
     index_loop rest (i + 1)
       (fmupd (Slug entry) i idx,
        if length (NormalizedTitle entry) > 0
        then fmupd (string_of_byte (NormalizedTitle entry ! 0)) True letterMap
        else letterMap)"

text \<open>
  The three calls into the operating system and the standard library are parameters of
  the model: opening the file, creating the gzip reader, decoding the JSON document read
  through it. \<open>None\<close> is a call that returned an error.
\<close>

record env =
  os_Open :: "string \<Rightarrow> string option"
  gzip_NewReader :: "string \<Rightarrow> string option"
  json_Decode :: "string \<Rightarrow> decoded option"

datatype load_error = FailedToOpen string | FailedGzipReader | FailedDecodeJSON

text \<open>
  The statements of \<open>LoadDataFromFile\<close> after the decoding succeeded: the assignments to
  the process-wide variables.
\<close>

definition publish :: "decoded \<Rightarrow> globals" where
  "publish d =
     (let (idx, letterMap) = index_loop (data_Entries d) 0 (fmempty, fmempty) in
      \<lparr> AllEntries = data_Entries d,
        entryIndexBySlug = idx,
        DictionaryLetters = slices_Sorted (maps_Keys letterMap),
        Glossary = fmmap template_HTML (data_Glossary d),
        SemanticFields = data_SemanticFields d \<rparr>)"

text \<open>
  \<open>LoadDataFromFile\<close>: each failing call returns early with an error and leaves the
  process-wide variables as they were (\<open>Inl\<close>); otherwise the new values are \<open>Inr\<close>.
\<close>

definition LoadDataFromFile :: "env \<Rightarrow> string \<Rightarrow> load_error + globals" where
  "LoadDataFromFile w filePath =
     (case os_Open w filePath of
        None \<Rightarrow> Inl (FailedToOpen filePath)
      | Some file \<Rightarrow>
          (case gzip_NewReader w file of
             None \<Rightarrow> Inl FailedGzipReader
           | Some gzipReader \<Rightarrow>
               (case json_Decode w gzipReader of
                  None \<Rightarrow> Inl FailedDecodeJSON
                | Some d \<Rightarrow> Inr (publish d))))"

section \<open>Entry rendering and navigation\<close>

definition RenderEntry :: "Entry \<Rightarrow> string" where
  "RenderEntry entry =
     ''<h2>'' @ DisplayTitle entry @ ''</h2><div>'' @ Content entry @ ''</div>''"

definition RenderEntryBySlug :: "globals \<Rightarrow> string \<Rightarrow> panic + (string \<times> bool)" where
  "RenderEntryBySlug g slug =
     (case fmlookup (entryIndexBySlug g) slug of
        None \<Rightarrow> Inr ('''', False)
      | Some i \<Rightarrow>
          (case index_at (AllEntries g) i of
             Inl p \<Rightarrow> Inl p
           | Inr entry \<Rightarrow> Inr (RenderEntry entry, True)))"

definition GetAdjacentEntrySlugs :: "globals \<Rightarrow> string \<Rightarrow> panic + (string \<times> string)" where
  "GetAdjacentEntrySlugs g slug =
     (case fmlookup (entryIndexBySlug g) slug of
        None \<Rightarrow> Inr ('''', '''')
      | Some i \<Rightarrow>
          (case (if i > 0 then map_sum id Slug (index_at (AllEntries g) (i - 1)) else Inr '''') of
             Inl p \<Rightarrow> Inl p
           | Inr prev \<Rightarrow>
               (case (if i < int (length (AllEntries g)) - 1
                      then map_sum id Slug (index_at (AllEntries g) (i + 1)) else Inr '''') of
                  Inl p \<Rightarrow> Inl p
                | Inr next \<Rightarrow> Inr (prev, next))))"

definition GetNavigationLetters :: "globals \<Rightarrow> string \<Rightarrow> panic + (string \<times> string)" where
  "GetNavigationLetters g letter =
     (let i = slices_Index (DictionaryLetters g) letter in
      if i < 0 then Inr ('''', '''')
      else
        (case (if i > 0 then index_at (DictionaryLetters g) (i - 1) else Inr '''') of
           Inl p \<Rightarrow> Inl p
         | Inr prev \<Rightarrow>
             (case (if i < int (length (DictionaryLetters g)) - 1
                    then index_at (DictionaryLetters g) (i + 1) else Inr '''') of
                Inl p \<Rightarrow> Inl p
              | Inr next \<Rightarrow> Inr (prev, next))))"

section \<open>Page data assembly\<close>

text \<open>The zero value of \<open>PageData\<close>, which a composite literal starts from.\<close>

definition zero_PageData :: PageData where
  "zero_PageData =
     \<lparr> PlainTextTitle = '''', PageType = '''', Letters = [], PrevSlug = '''', NextSlug = '''',
       Letter = '''', PrevLetter = '''', NextLetter = '''', Entries = [],
       GlossaryLetters = [], GlossaryContent = fmempty, ContentHTML = '''' \<rparr>"

definition CreateStaticPageData :: "globals \<Rightarrow> string \<Rightarrow> string \<Rightarrow> PageData" where
  "CreateStaticPageData g path title =
     (let data = zero_PageData\<lparr> PlainTextTitle := title, PageType := path \<rparr> in
      if path = ''glossari''
      then data\<lparr> GlossaryLetters := slices_Sorted (maps_Keys (Glossary g)),
                 GlossaryContent := Glossary g \<rparr>
      else data)"

text \<open>
  \<open>strings.ReplaceAll(s, old, new)\<close> for a non-empty \<open>old\<close>: the non-overlapping
  occurrences of \<open>old\<close>, found from the left, are replaced by \<open>new\<close>. The core only calls it
  with the one-byte \<open>old = "_"\<close>; an empty \<open>old\<close> (which Go matches at every rune boundary)
  is left unspecified.
\<close>

function (sequential) strings_ReplaceAll :: "string \<Rightarrow> string \<Rightarrow> string \<Rightarrow> string" where
  "strings_ReplaceAll [] (c # cs) new = []"
| "strings_ReplaceAll (x # xs) (c # cs) new =
     (if take (length (c # cs)) (x # xs) = c # cs
      then new @ strings_ReplaceAll (drop (length (c # cs)) (x # xs)) (c # cs) new
      else x # strings_ReplaceAll xs (c # cs) new)"
| "strings_ReplaceAll s [] new = undefined"
  by pat_completeness auto
termination
  by (relation "measure (\<lambda>(s, old, new). length s)") auto

definition CreateEntryPageData :: "string \<Rightarrow> string \<Rightarrow> string \<Rightarrow> string \<Rightarrow> PageData" where
  "CreateEntryPageData slug entryHTML prevSlug nextSlug =
     zero_PageData\<lparr> PlainTextTitle := strings_ReplaceAll slug ''_'' '' '',
                      PageType := ''entry'',
                      ContentHTML := template_HTML entryHTML,
                      PrevSlug := prevSlug,
                      NextSlug := nextSlug \<rparr>"

text \<open>
  The loop of \<open>GetEntriesByFirstLetter\<close>. The condition
  \<open>len(entry.NormalizedTitle) > 0 && entry.NormalizedTitle[0] == letter[0]\<close> evaluates its
  right conjunct, and with it \<open>letter[0]\<close>, only when the left one holds.
\<close>

fun GetEntriesByFirstLetter_loop ::
  "Entry list \<Rightarrow> string \<Rightarrow> LetterEntry list \<Rightarrow> panic + LetterEntry list" where
  "GetEntriesByFirstLetter_loop [] letter entries = Inr entries"
| "GetEntriesByFirstLetter_loop (entry # rest) letter entries =
     (if length (NormalizedTitle entry) > 0
      then
        (case index_at (NormalizedTitle entry) 0 of
           Inl p \<Rightarrow> Inl p
         | Inr a \<Rightarrow>
             (case index_at letter 0 of
                Inl p \<Rightarrow> Inl p
              | Inr b \<Rightarrow>
                  if a = b
                  then GetEntriesByFirstLetter_loop rest letter
                         (entries @ [\<lparr> le_Slug = Slug entry,
                                       le_DisplayTitle = template_HTML (DisplayTitle entry) \<rparr>])
                  else GetEntriesByFirstLetter_loop rest letter entries))
      else GetEntriesByFirstLetter_loop rest letter entries)"

definition GetEntriesByFirstLetter :: "globals \<Rightarrow> string \<Rightarrow> panic + LetterEntry list" where
  "GetEntriesByFirstLetter g letter = GetEntriesByFirstLetter_loop (AllEntries g) letter []"

text \<open>The check that \<open>LetterHandler\<close> makes before it calls \<open>GetEntriesByFirstLetter\<close>.\<close>

definition valid_letter :: "string \<Rightarrow> bool" where
  "valid_letter letter =
     (\<not> (length letter \<noteq> 1 \<or> letter ! 0 < CHR ''a'' \<or> letter ! 0 > CHR ''z''))"

section \<open>Notions of the specification\<close>

text \<open>
  The set of first characters of the non-empty normalized titles, each as a one-character
  string: what the specification says the letters sequence holds.
\<close>

definition first_characters :: "Entry list \<Rightarrow> string set" where
  "first_characters es =
     set (map (\<lambda>e. [NormalizedTitle e ! 0]) (filter (\<lambda>e. NormalizedTitle e \<noteq> []) es))"

text \<open>Every non-empty normalized title starts with an ASCII byte, as the letters a-z do.\<close>

definition ascii_initials :: "Entry list \<Rightarrow> bool" where
  "ascii_initials es =
     list_all (\<lambda>e. NormalizedTitle e \<noteq> [] \<longrightarrow> (of_char (NormalizedTitle e ! 0) :: nat) < 128) es"

text \<open>The minimal projection of an entry that a letter page lists.\<close>

definition project :: "Entry \<Rightarrow> LetterEntry" where
  "project e = \<lparr> le_Slug = Slug e, le_DisplayTitle = DisplayTitle e \<rparr>"

section \<open>Sample data\<close>

text \<open>
  An environment in which the data file opens, the gzip reader is created and the
  document decodes to \<open>d\<close>.
\<close>

definition env_decoding :: "decoded \<Rightarrow> env" where
  "env_decoding d =
     \<lparr> os_Open = (\<lambda>filePath. Some filePath),
       gzip_NewReader = (\<lambda>file. Some file),
       json_Decode = (\<lambda>gzipReader. Some d) \<rparr>"

definition sample_entry :: "string \<Rightarrow> string \<Rightarrow> string \<Rightarrow> Entry" where
  "sample_entry slug display normalized =
     \<lparr> Slug = slug, DisplayTitle = display, NormalizedTitle = normalized, Content = ''...'' \<rparr>"

definition sample_data :: decoded where
  "sample_data =
     \<lparr> data_Entries =
         [sample_entry ''abella'' ''Abella'' ''abella'',
          sample_entry ''casa'' ''Casa'' ''casa'',
          sample_entry ''cotxe'' ''Cotxe'' ''cotxe'',
          sample_entry ''quatre'' ''Quatre'' ''quatre''],
       data_SemanticFields = [],
       data_Glossary = fmupd ''B'' ''<p>b</p>'' (fmupd ''A'' ''<p>a</p>'' fmempty) \<rparr>"

text \<open>Three entries that carry the same slug.\<close>

definition sample_triple :: decoded where
  "sample_triple =
     \<lparr> data_Entries =
         [sample_entry ''casa'' ''Casa (1)'' ''casa'',
          sample_entry ''casa'' ''Casa (2)'' ''casa'',
          sample_entry ''casa'' ''Casa (3)'' ''casa''],
       data_SemanticFields = [],
       data_Glossary = fmempty \<rparr>"


text \<open>A document without entries.\<close>

definition sample_no_entries :: decoded where
  "sample_no_entries = \<lparr> data_Entries = [], data_SemanticFields = [], data_Glossary = fmempty \<rparr>"

section \<open>Auxiliary facts\<close>

lemma index_at_nat: "i < length xs \<Longrightarrow> index_at xs (int i) = Inr (xs ! i)"
  by (simp add: index_at_def)

lemma index_loop_lookup_absent:
  "s \<notin> Slug ` set es \<Longrightarrow>
   fmlookup (fst (index_loop es i (idx, lm))) s = fmlookup idx s"
  by (induction es arbitrary: i idx lm) auto

lemma index_loop_lookup_last:
  "j < length es \<Longrightarrow> Slug (es ! j) = s \<Longrightarrow>
   (\<forall>k. j < k \<and> k < length es \<longrightarrow> Slug (es ! k) \<noteq> s) \<Longrightarrow>
   fmlookup (fst (index_loop es i (idx, lm))) s = Some (i + int j)"
proof (induction es arbitrary: i idx lm j)
  case Nil
  then show ?case by simp
next
  case (Cons e es)
  show ?case
  proof (cases j)
    case 0
    have "s \<notin> Slug ` set es"
    proof
      assume "s \<in> Slug ` set es"
      then obtain k where "k < length es" "Slug (es ! k) = s"
        by (auto simp: in_set_conv_nth)
      with Cons.prems(3) 0 show False by (auto dest: spec [of _ "Suc k"])
    qed
    with 0 Cons.prems(2) show ?thesis
      by (simp add: index_loop_lookup_absent)
  next
    case (Suc j')
    have "fmlookup (fst (index_loop es (i + 1) (fmupd (Slug e) i idx,
            if length (NormalizedTitle e) > 0
            then fmupd (string_of_byte (NormalizedTitle e ! 0)) True lm else lm))) s
          = Some (i + 1 + int j')"
    proof (rule Cons.IH)
      show "j' < length es" using Cons.prems(1) Suc by simp
      show "Slug (es ! j') = s" using Cons.prems(2) Suc by simp
      show "\<forall>k. j' < k \<and> k < length es \<longrightarrow> Slug (es ! k) \<noteq> s"
        using Cons.prems(3) Suc by (auto dest: spec [of _ "Suc k" for k])
    qed
    with Suc show ?thesis by simp
  qed
qed

lemma index_loop_lookup_range:
  "fmlookup (fst (index_loop es i (idx, lm))) s = Some v \<Longrightarrow>
   fmlookup idx s = Some v \<or>
   (i \<le> v \<and> v < i + int (length es) \<and> Slug (es ! nat (v - i)) = s)"
proof (induction es arbitrary: i idx lm)
  case Nil
  then show ?case by simp
next
  case (Cons e es)
  from Cons.prems have
    "fmlookup (fst (index_loop es (i + 1) (fmupd (Slug e) i idx,
        if length (NormalizedTitle e) > 0
        then fmupd (string_of_byte (NormalizedTitle e ! 0)) True lm else lm))) s = Some v"
    by simp
  from Cons.IH [OF this]
  consider "fmlookup (fmupd (Slug e) i idx) s = Some v"
    | "i + 1 \<le> v" "v < i + 1 + int (length es)" "Slug (es ! nat (v - (i + 1))) = s"
    by blast
  then show ?case
  proof cases
    case 1
    then show ?thesis by (auto split: if_splits)
  next
    case 2
    have "nat (v - i) = Suc (nat (v - (i + 1)))" using 2(1) by simp
    with 2 show ?thesis by simp
  qed
qed

lemma index_loop_letters:
  "fmdom (snd (index_loop es i (idx, lm))) =
   fmdom lm |\<union>| fset_of_list (map (\<lambda>e. string_of_byte (NormalizedTitle e ! 0))
                               (filter (\<lambda>e. length (NormalizedTitle e) > 0) es))"
  by (induction es arbitrary: i idx lm) auto

lemma slices_Index_absent: "v \<notin> set xs \<Longrightarrow> slices_Index xs v = -1"
  by (induction xs) (auto simp: Let_def)

lemma slices_Index_bounds:
  "v \<in> set xs \<Longrightarrow> 0 \<le> slices_Index xs v \<and> slices_Index xs v < int (length xs)"
  by (induction xs) (auto simp: Let_def)

lemma slices_Index_distinct:
  "distinct xs \<Longrightarrow> j < length xs \<Longrightarrow> slices_Index xs (xs ! j) = int j"
proof (induction xs arbitrary: j)
  case Nil
  then show ?case by simp
next
  case (Cons x xs)
  show ?case
  proof (cases j)
    case 0
    then show ?thesis by simp
  next
    case (Suc j')
    with Cons.prems have "xs ! j' \<noteq> x" "j' < length xs" by auto
    with Cons.IH [of j'] Cons.prems(1) Suc show ?thesis by (simp add: Let_def)
  qed
qed

lemma slices_Sorted_strict: "sorted_wrt (<) (slices_Sorted ks)"
  unfolding slices_Sorted_def by (simp add: sorted_list_of_fset.rep_eq)

lemma slices_Sorted_set: "set (slices_Sorted ks) = fset ks"
  unfolding slices_Sorted_def by simp

lemma strings_ReplaceAll_byte:
  "strings_ReplaceAll s [c] [d] = map (\<lambda>x. if x = c then d else x) s"
  by (induction s) auto

lemma GetEntriesByFirstLetter_loop_eq:
  "GetEntriesByFirstLetter_loop es (c # cs) acc =
   Inr (acc @ map (\<lambda>e. \<lparr> le_Slug = Slug e, le_DisplayTitle = DisplayTitle e \<rparr>)
                 (filter (\<lambda>e. NormalizedTitle e \<noteq> [] \<and> NormalizedTitle e ! 0 = c) es))"
  by (induction es arbitrary: acc) (auto simp: index_at_def template_HTML_def)

lemma GetEntriesByFirstLetter_loop_empty:
  "GetEntriesByFirstLetter_loop es [] acc =
   (if \<exists>e \<in> set es. NormalizedTitle e \<noteq> [] then Inl IndexOutOfRange else Inr acc)"
  by (induction es arbitrary: acc) (auto simp: index_at_def)

lemma LoadDataFromFile_Inr:
  "LoadDataFromFile w p = Inr g \<Longrightarrow> \<exists>d. g = publish d"
  by (auto simp: LoadDataFromFile_def split: option.splits)

lemma publish_AllEntries [simp]: "AllEntries (publish d) = data_Entries d"
  by (simp add: publish_def split: prod.splits)

lemma publish_index:
  "entryIndexBySlug (publish d) = fst (index_loop (data_Entries d) 0 (fmempty, fmempty))"
  by (simp add: publish_def split: prod.splits)

lemma publish_letters:
  "DictionaryLetters (publish d) =
   slices_Sorted (maps_Keys (snd (index_loop (data_Entries d) 0 (fmempty, fmempty))))"
  by (simp add: publish_def split: prod.splits)

lemma publish_index_range:
  assumes "fmlookup (entryIndexBySlug (publish d)) s = Some v"
  shows "0 \<le> v \<and> v < int (length (data_Entries d)) \<and> Slug (data_Entries d ! nat v) = s"
  using index_loop_lookup_range [of "data_Entries d" 0 fmempty fmempty s v] assms
  by (simp add: publish_index)

lemma publish_index_last:
  assumes "j < length (data_Entries d)"
    and "\<forall>k. j < k \<and> k < length (data_Entries d) \<longrightarrow> Slug (data_Entries d ! k) \<noteq> Slug (data_Entries d ! j)"
  shows "fmlookup (entryIndexBySlug (publish d)) (Slug (data_Entries d ! j)) = Some (int j)"
  using index_loop_lookup_last [OF assms(1) refl assms(2), of 0 fmempty fmempty]
  by (simp add: publish_index)

lemma publish_letters_set:
  "set (DictionaryLetters (publish d)) =
   (\<lambda>e. string_of_byte (NormalizedTitle e ! 0)) ` {e \<in> set (data_Entries d). NormalizedTitle e \<noteq> []}"
  by (auto simp: publish_letters slices_Sorted_set maps_Keys_def index_loop_letters fset_of_list.rep_eq)


lemma LoadDataFromFile_success:
  "LoadDataFromFile (env_decoding d) p = Inr (publish d)"
  by (simp add: LoadDataFromFile_def env_decoding_def)

lemma publish_letters_strict: "sorted_wrt (<) (DictionaryLetters (publish d))"
  by (simp add: publish_letters slices_Sorted_strict)

lemma first_characters_ascii:
  assumes "ascii_initials es"
  shows "(\<lambda>e. string_of_byte (NormalizedTitle e ! 0)) ` {e \<in> set es. NormalizedTitle e \<noteq> []}
         = first_characters es"
proof -
  have "string_of_byte (NormalizedTitle e ! 0) = [NormalizedTitle e ! 0]"
    if "e \<in> set es" "NormalizedTitle e \<noteq> []" for e
    using assms that by (simp add: ascii_initials_def list_all_iff string_of_byte_def)
  then show ?thesis
    by (auto simp: first_characters_def image_iff)
qed

lemma sample_data_letters: "DictionaryLetters (publish sample_data) = [''a'', ''c'', ''q'']"
proof -
  have s: "sorted_wrt (<) [''a'', ''c'', ''q'']" by simp
  have a: "ascii_initials (data_Entries sample_data)"
    by (simp add: ascii_initials_def sample_data_def sample_entry_def)
  have "first_characters (data_Entries sample_data) = {''a'', ''c'', ''q''}"
    by (simp add: first_characters_def sample_data_def sample_entry_def)
  with first_characters_ascii [OF a]
  have "set (DictionaryLetters (publish sample_data)) = set [''a'', ''c'', ''q'']"
    by (simp add: publish_letters_set)
  with publish_letters_strict [of sample_data] s show ?thesis
    by (intro sorted_distinct_set_unique) (simp_all add: strict_sorted_iff)
qed

lemma sample_glossary_keys:
  "slices_Sorted (maps_Keys (Glossary (publish sample_data))) = [''A'', ''B'']"
proof -
  have "sorted_wrt (<) [''A'', ''B'']" by simp
  moreover have "set (slices_Sorted (maps_Keys (Glossary (publish sample_data)))) = set [''A'', ''B'']"
    by (auto simp: slices_Sorted_set maps_Keys_def publish_def sample_data_def split: prod.splits)
  ultimately show ?thesis
    using slices_Sorted_strict [of "maps_Keys (Glossary (publish sample_data))"]
    by (intro sorted_distinct_set_unique) (simp_all add: strict_sorted_iff)
qed

text \<open>
  What \<open>LoadDataFromFile\<close> does around the three library calls: the first call that
  returns an error ends the load with an error, before any variable is assigned; when
  all three succeed, the decoded document is published. When the calls themselves fail
  is a matter of the file system, the gzip format and the JSON decoder.
\<close>

lemma LoadDataFromFile_outcome:
  "(os_Open w p = None \<longrightarrow> LoadDataFromFile w p = Inl (FailedToOpen p)) \<and>
   (\<forall>file. os_Open w p = Some file \<and> gzip_NewReader w file = None \<longrightarrow>
      LoadDataFromFile w p = Inl FailedGzipReader) \<and>
   (\<forall>file r. os_Open w p = Some file \<and> gzip_NewReader w file = Some r \<and> json_Decode w r = None \<longrightarrow>
      LoadDataFromFile w p = Inl FailedDecodeJSON) \<and>
   (\<forall>file r d. os_Open w p = Some file \<and> gzip_NewReader w file = Some r \<and> json_Decode w r = Some d \<longrightarrow>
      LoadDataFromFile w p = Inr (publish d))"
  by (simp add: LoadDataFromFile_def)

lemma publish_collections:
  "AllEntries (publish d) = data_Entries d \<and>
   SemanticFields (publish d) = data_SemanticFields d \<and>
   Glossary (publish d) = data_Glossary d"
proof -
  have "template_HTML = id" by (rule ext) (simp add: template_HTML_def)
  then show ?thesis by (simp add: publish_def fmap.map_id split: prod.splits)
qed

text \<open>
  After a successful load every position in the slug index is within the entry sequence,
  so the lookups by slug do not panic; \<open>GetNavigationLetters\<close> never does.
\<close>

lemma GetAdjacentEntrySlugs_loaded_total:
  assumes "LoadDataFromFile w p = Inr g"
  shows "\<exists>r. GetAdjacentEntrySlugs g s = Inr r"
proof -
  from assms obtain d where g: "g = publish d" by (auto dest: LoadDataFromFile_Inr)
  show ?thesis
  proof (cases "fmlookup (entryIndexBySlug g) s")
    case None
    then show ?thesis by (simp add: GetAdjacentEntrySlugs_def)
  next
    case (Some v)
    with publish_index_range [of d s v] have "0 \<le> v" "v < int (length (AllEntries g))"
      by (simp_all add: g)
    with Some show ?thesis
      by (simp add: GetAdjacentEntrySlugs_def index_at_def)
  qed
qed

lemma RenderEntryBySlug_loaded_total:
  assumes "LoadDataFromFile w p = Inr g"
  shows "\<exists>r. RenderEntryBySlug g s = Inr r"
proof -
  from assms obtain d where g: "g = publish d" by (auto dest: LoadDataFromFile_Inr)
  show ?thesis
  proof (cases "fmlookup (entryIndexBySlug g) s")
    case None
    then show ?thesis by (auto simp: RenderEntryBySlug_def)
  next
    case (Some v)
    with publish_index_range [of d s v] have "0 \<le> v" "v < int (length (AllEntries g))"
      by (simp_all add: g)
    with Some show ?thesis
      by (auto simp: RenderEntryBySlug_def index_at_def)
  qed
qed

lemma GetNavigationLetters_total: "\<exists>r. GetNavigationLetters g l = Inr r"
proof (cases "l \<in> set (DictionaryLetters g)")
  case True
  from slices_Index_bounds [OF this] show ?thesis
    by (simp add: GetNavigationLetters_def Let_def index_at_def)
next
  case False
  then show ?thesis by (simp add: GetNavigationLetters_def slices_Index_absent)
qed

section \<open>Navigation between entries\<close>

text \<open>
  C1. For every slug \<open>s\<close>: when \<open>s\<close> is no key of the slug index, \<open>GetAdjacentEntrySlugs\<close>
  returns two empty strings; when the index maps \<open>s\<close> to a position \<open>i\<close> of the entry
  sequence, it returns the slug at \<open>i - 1\<close> (empty for \<open>i = 0\<close>) and the slug at \<open>i + 1\<close>
  (empty for the last position), without a panic.
\<close>

theorem GetAdjacentEntrySlugs_adjacent:
  "(fmlookup (entryIndexBySlug g) s = None \<longrightarrow> GetAdjacentEntrySlugs g s = Inr ('''', '''')) \<and>
   (\<forall>i. fmlookup (entryIndexBySlug g) s = Some (int i) \<and> i < length (AllEntries g) \<longrightarrow>
      GetAdjacentEntrySlugs g s =
        Inr (if i > 0 then Slug (AllEntries g ! (i - 1)) else '''',
             if i \<noteq> length (AllEntries g) - 1 then Slug (AllEntries g ! (i + 1)) else ''''))"
proof (intro conjI allI impI)
  assume "fmlookup (entryIndexBySlug g) s = None"
  then show "GetAdjacentEntrySlugs g s = Inr ('''', '''')"
    by (simp add: GetAdjacentEntrySlugs_def)
next
  fix i
  assume a: "fmlookup (entryIndexBySlug g) s = Some (int i) \<and> i < length (AllEntries g)"
  then show "GetAdjacentEntrySlugs g s =
        Inr (if i > 0 then Slug (AllEntries g ! (i - 1)) else '''',
             if i \<noteq> length (AllEntries g) - 1 then Slug (AllEntries g ! (i + 1)) else '''')"
    by (auto simp: GetAdjacentEntrySlugs_def index_at_def nat_diff_distrib' nat_add_distrib)
qed

theorem GetAdjacentEntrySlugs_adjacent_witness:
  "fmlookup (entryIndexBySlug (publish sample_data)) ''casa'' = Some (int 1) \<and>
   1 < length (AllEntries (publish sample_data)) \<and>
   GetAdjacentEntrySlugs (publish sample_data) ''casa'' = Inr (''abella'', ''cotxe'') \<and>
   fmlookup (entryIndexBySlug (publish sample_data)) ''__does_not_exist__'' = None \<and>
   GetAdjacentEntrySlugs (publish sample_data) ''__does_not_exist__'' = Inr ('''', '''')"
  using GetAdjacentEntrySlugs_adjacent [of "publish sample_data" "''casa''"]
    GetAdjacentEntrySlugs_adjacent [of "publish sample_data" "''__does_not_exist__''"]
  by (simp add: publish_index sample_data_def sample_entry_def)

section \<open>The letters sequence\<close>




section \<open>Entry lookup by slug\<close>

text \<open>
  C3. After a successful load in which the slugs are unique, for every loaded entry \<open>e\<close>
  the slug index holds a position for \<open>Slug e\<close>, indexing the entry sequence at that
  position succeeds and gives exactly \<open>e\<close>, and \<open>RenderEntryBySlug\<close> reports the entry as
  found and renders \<open>e\<close>.
\<close>

theorem RenderEntryBySlug_loaded_entry:
  assumes "LoadDataFromFile w filePath = Inr g"
    and "distinct (map Slug (AllEntries g))"
    and "e \<in> set (AllEntries g)"
  shows "\<exists>i. fmlookup (entryIndexBySlug g) (Slug e) = Some i \<and>
             index_at (AllEntries g) i = Inr e \<and>
             RenderEntryBySlug g (Slug e) = Inr (RenderEntry e, True)"
proof -
  from assms(1) obtain d where g: "g = publish d" by (auto dest: LoadDataFromFile_Inr)
  from assms(3) obtain j where j: "j < length (data_Entries d)" "data_Entries d ! j = e"
    by (auto simp: g in_set_conv_nth)
  have "\<forall>k. j < k \<and> k < length (data_Entries d) \<longrightarrow>
          Slug (data_Entries d ! k) \<noteq> Slug (data_Entries d ! j)"
    using assms(2) j(1) by (auto simp: g distinct_conv_nth)
  from publish_index_last [OF j(1) this]
  have look: "fmlookup (entryIndexBySlug g) (Slug e) = Some (int j)"
    by (simp add: g j(2))
  have at: "index_at (AllEntries g) (int j) = Inr e"
    using j by (simp add: g index_at_nat)
  show ?thesis
    using look at by (simp add: RenderEntryBySlug_def)
qed

theorem RenderEntryBySlug_loaded_entry_witness:
  "LoadDataFromFile (env_decoding sample_data) ''data/data.json.gz'' = Inr (publish sample_data) \<and>
   distinct (map Slug (AllEntries (publish sample_data))) \<and>
   sample_entry ''cotxe'' ''Cotxe'' ''cotxe'' \<in> set (AllEntries (publish sample_data)) \<and>
   RenderEntryBySlug (publish sample_data) ''cotxe'' = Inr (''<h2>Cotxe</h2><div>...</div>'', True)"
proof -
  have l: "LoadDataFromFile (env_decoding sample_data) ''data/data.json.gz'' = Inr (publish sample_data)"
    by (simp add: LoadDataFromFile_def env_decoding_def)
  have d: "distinct (map Slug (AllEntries (publish sample_data)))"
    by (simp add: sample_data_def sample_entry_def)
  have m: "sample_entry ''cotxe'' ''Cotxe'' ''cotxe'' \<in> set (AllEntries (publish sample_data))"
    by (simp add: sample_data_def)
  from RenderEntryBySlug_loaded_entry [OF l d m] have
    "RenderEntryBySlug (publish sample_data) (Slug (sample_entry ''cotxe'' ''Cotxe'' ''cotxe''))
       = Inr (RenderEntry (sample_entry ''cotxe'' ''Cotxe'' ''cotxe''), True)"
    by blast
  then have "RenderEntryBySlug (publish sample_data) ''cotxe'' = Inr (''<h2>Cotxe</h2><div>...</div>'', True)"
    by (simp add: sample_entry_def RenderEntry_def)
  with l d m show ?thesis by blast
qed

section \<open>Entries of a letter\<close>

text \<open>
  C4. For every single lowercase letter \<open>l\<close> in a-z, \<open>GetEntriesByFirstLetter\<close> returns,
  without a panic, exactly the entries whose normalized title is non-empty and starts
  with \<open>l\<close>, each projected to slug and display title, in the order of the entry
  sequence.
\<close>

theorem GetEntriesByFirstLetter_filter:
  assumes "valid_letter l"
  shows "GetEntriesByFirstLetter g l =
         Inr (map project
               (filter (\<lambda>e. NormalizedTitle e \<noteq> [] \<and> NormalizedTitle e ! 0 = l ! 0)
                 (AllEntries g)))"
proof -
  from assms obtain c where l: "l = [c]"
    by (cases l) (auto simp: valid_letter_def)
  show ?thesis
    unfolding GetEntriesByFirstLetter_def l project_def
    by (simp add: GetEntriesByFirstLetter_loop_eq)
qed

theorem GetEntriesByFirstLetter_filter_witness:
  "valid_letter ''c'' \<and>
   GetEntriesByFirstLetter (publish sample_data) ''c'' =
     Inr [\<lparr> le_Slug = ''casa'', le_DisplayTitle = ''Casa'' \<rparr>,
          \<lparr> le_Slug = ''cotxe'', le_DisplayTitle = ''Cotxe'' \<rparr>]"
  using GetEntriesByFirstLetter_filter [of "''c''" "publish sample_data"]
  by (simp add: valid_letter_def project_def sample_data_def sample_entry_def)

section \<open>Navigation between letters\<close>

text \<open>
  C5. Over a letters sequence without duplicates (the sorted sequence that loading builds
  is strictly sorted): when the letter \<open>l\<close> occurs at position \<open>j\<close>,
  \<open>GetNavigationLetters\<close> returns the letter at \<open>j - 1\<close> (empty for \<open>j = 0\<close>) and the letter
  at \<open>j + 1\<close> (empty for the last position); when \<open>l\<close> does not occur, it returns two empty
  strings. It never panics.
\<close>

theorem GetNavigationLetters_adjacent:
  assumes "distinct (DictionaryLetters g)"
  shows "(\<forall>j. j < length (DictionaryLetters g) \<and> DictionaryLetters g ! j = l \<longrightarrow>
            GetNavigationLetters g l =
              Inr (if j > 0 then DictionaryLetters g ! (j - 1) else '''',
                   if j \<noteq> length (DictionaryLetters g) - 1
                   then DictionaryLetters g ! (j + 1) else '''')) \<and>
         (l \<notin> set (DictionaryLetters g) \<longrightarrow> GetNavigationLetters g l = Inr ('''', ''''))"
proof (intro conjI allI impI)
  assume "l \<notin> set (DictionaryLetters g)"
  then show "GetNavigationLetters g l = Inr ('''', '''')"
    by (simp add: GetNavigationLetters_def slices_Index_absent)
next
  fix j
  assume a: "j < length (DictionaryLetters g) \<and> DictionaryLetters g ! j = l"
  with assms have "slices_Index (DictionaryLetters g) l = int j"
    using slices_Index_distinct [of "DictionaryLetters g" j] by auto
  with a show "GetNavigationLetters g l =
              Inr (if j > 0 then DictionaryLetters g ! (j - 1) else '''',
                   if j \<noteq> length (DictionaryLetters g) - 1
                   then DictionaryLetters g ! (j + 1) else '''')"
    by (auto simp: GetNavigationLetters_def Let_def index_at_def nat_diff_distrib' nat_add_distrib
        numeral_2_eq_2)
qed

theorem GetNavigationLetters_adjacent_witness:
  "distinct (DictionaryLetters (publish sample_data)) \<and>
   1 < length (DictionaryLetters (publish sample_data)) \<and>
   DictionaryLetters (publish sample_data) ! 1 = ''c'' \<and>
   GetNavigationLetters (publish sample_data) ''c'' = Inr (''a'', ''q'') \<and>
   ''z'' \<notin> set (DictionaryLetters (publish sample_data)) \<and>
   GetNavigationLetters (publish sample_data) ''z'' = Inr ('''', '''')"
proof -
  have d: "distinct (DictionaryLetters (publish sample_data))"
    by (simp add: sample_data_letters)
  from GetNavigationLetters_adjacent [OF d, of "''c''"]
  have "1 < length (DictionaryLetters (publish sample_data)) \<and>
        DictionaryLetters (publish sample_data) ! 1 = ''c'' \<longrightarrow>
        GetNavigationLetters (publish sample_data) ''c'' =
          Inr (if (1::nat) > 0 then DictionaryLetters (publish sample_data) ! (1 - 1) else '''',
               if 1 \<noteq> length (DictionaryLetters (publish sample_data)) - 1
               then DictionaryLetters (publish sample_data) ! (1 + 1) else '''')"
    by blast
  then have c: "GetNavigationLetters (publish sample_data) ''c'' = Inr (''a'', ''q'')"
    by (simp add: sample_data_letters)
  from GetNavigationLetters_adjacent [OF d, of "''z''"]
  have z: "GetNavigationLetters (publish sample_data) ''z'' = Inr ('''', '''')"
    by (simp add: sample_data_letters)
  from c z show ?thesis by (simp add: sample_data_letters)
qed

section \<open>Static pages and entry pages\<close>

text \<open>
  C6. \<open>CreateStaticPageData\<close> always sets \<open>PlainTextTitle\<close> to the title. For the path
  \<open>glossari\<close>, \<open>GlossaryLetters\<close> is the strictly ascending sequence of the keys of the
  glossary and \<open>GlossaryContent\<close> is the glossary itself; for every other path both
  fields stay empty.
\<close>

theorem CreateStaticPageData_glossary:
  "PlainTextTitle (CreateStaticPageData g path title) = title \<and>
   (path = ''glossari'' \<longrightarrow>
      sorted_wrt (<) (GlossaryLetters (CreateStaticPageData g path title)) \<and>
      set (GlossaryLetters (CreateStaticPageData g path title)) = fset (fmdom (Glossary g)) \<and>
      GlossaryContent (CreateStaticPageData g path title) = Glossary g) \<and>
   (path \<noteq> ''glossari'' \<longrightarrow>
      GlossaryLetters (CreateStaticPageData g path title) = [] \<and>
      GlossaryContent (CreateStaticPageData g path title) = fmempty)"
  by (simp add: CreateStaticPageData_def zero_PageData_def Let_def slices_Sorted_strict
      slices_Sorted_set maps_Keys_def)

theorem CreateStaticPageData_glossary_witness:
  "GlossaryLetters (CreateStaticPageData (publish sample_data) ''glossari'' ''Glossari'') = [''A'', ''B''] \<and>
   GlossaryContent (CreateStaticPageData (publish sample_data) ''glossari'' ''Glossari'')
     = Glossary (publish sample_data) \<and>
   ''credits'' \<noteq> ''glossari'' \<and>
   GlossaryLetters (CreateStaticPageData (publish sample_data) ''credits'' ''Credits'') = [] \<and>
   GlossaryContent (CreateStaticPageData (publish sample_data) ''credits'' ''Credits'') = fmempty \<and>
   PlainTextTitle (CreateStaticPageData (publish sample_data) ''credits'' ''Credits'') = ''Credits''"
proof -
  have "GlossaryLetters (CreateStaticPageData (publish sample_data) ''glossari'' ''Glossari'') = [''A'', ''B'']"
    by (simp add: CreateStaticPageData_def zero_PageData_def sample_glossary_keys)
  then show ?thesis
    using CreateStaticPageData_glossary [of "publish sample_data" "''glossari''" "''Glossari''"]
      CreateStaticPageData_glossary [of "publish sample_data" "''credits''" "''Credits''"]
    by simp
qed

text \<open>
  C7. For every slug and all other arguments, \<open>CreateEntryPageData\<close> sets \<open>PlainTextTitle\<close>
  to the slug with each underscore replaced by a space; the slug \<open>adonar-se_(de)\<close> gives
  the title \<open>adonar-se (de)\<close>.
\<close>

theorem CreateEntryPageData_title:
  "PlainTextTitle (CreateEntryPageData s html prev next) =
     map (\<lambda>c. if c = CHR ''_'' then CHR '' '' else c) s \<and>
   PlainTextTitle (CreateEntryPageData ''adonar-se_(de)'' html prev next) = ''adonar-se (de)''"
  by (simp add: CreateEntryPageData_def zero_PageData_def strings_ReplaceAll_byte)

theorem CreateEntryPageData_title_witness:
  "PlainTextTitle (CreateEntryPageData ''a_b_c'' ''<h2>a b c</h2>'' ''a'' ''b'') = ''a b c''"
  using CreateEntryPageData_title [of "''a_b_c''" "''<h2>a b c</h2>''" "''a''" "''b''"] by simp

section \<open>Duplicate slugs\<close>

text \<open>
  C8, as the specification states it, fails when more than two entries carry the slug:
  of three entries with the slug \<open>casa\<close>, those at positions 0 and 1 carry the same slug,
  and the index maps it to position 2, not to 1.
\<close>

theorem index_duplicate_pair_counterexample:
  "(0::nat) < 1 \<and> 1 < length (data_Entries sample_triple) \<and>
   Slug (data_Entries sample_triple ! 0) = Slug (data_Entries sample_triple ! 1) \<and>
   fmlookup (entryIndexBySlug (publish sample_triple)) (Slug (data_Entries sample_triple ! 1)) = Some 2 \<and>
   fmlookup (entryIndexBySlug (publish sample_triple)) (Slug (data_Entries sample_triple ! 1)) \<noteq> Some 1"
  by (simp add: publish_index sample_triple_def sample_entry_def)

text \<open>
  C8, amended. If two entries at positions \<open>i < j\<close> of the entry sequence carry the same
  slug and no entry after position \<open>j\<close> carries it, then after a successful load the slug
  index maps that slug to \<open>j\<close>: the last entry's position has overwritten the earlier ones.
\<close>

theorem index_last_duplicate_wins:
  assumes "LoadDataFromFile w filePath = Inr g"
    and "i < j" and "j < length (AllEntries g)"
    and "Slug (AllEntries g ! i) = Slug (AllEntries g ! j)"
    and "\<forall>k. j < k \<and> k < length (AllEntries g) \<longrightarrow>
           Slug (AllEntries g ! k) \<noteq> Slug (AllEntries g ! j)"
  shows "fmlookup (entryIndexBySlug g) (Slug (AllEntries g ! i)) = Some (int j)"
proof -
  from assms(1) obtain d where g: "g = publish d" by (auto dest: LoadDataFromFile_Inr)
  from assms(3,5) have "fmlookup (entryIndexBySlug g) (Slug (AllEntries g ! j)) = Some (int j)"
    unfolding g using publish_index_last [of j d] by simp
  with assms(4) show ?thesis by simp
qed

theorem index_last_duplicate_wins_witness:
  "LoadDataFromFile (env_decoding sample_triple) ''data/data.json.gz'' = Inr (publish sample_triple) \<and>
   (1::nat) < 2 \<and> 2 < length (AllEntries (publish sample_triple)) \<and>
   Slug (AllEntries (publish sample_triple) ! 1) = Slug (AllEntries (publish sample_triple) ! 2) \<and>
   fmlookup (entryIndexBySlug (publish sample_triple)) ''casa'' = Some 2"
proof -
  have l: "LoadDataFromFile (env_decoding sample_triple) ''data/data.json.gz'' = Inr (publish sample_triple)"
    by (simp add: LoadDataFromFile_def env_decoding_def)
  have n: "2 < length (AllEntries (publish sample_triple))"
    by (simp add: sample_triple_def)
  have s: "Slug (AllEntries (publish sample_triple) ! 1) = Slug (AllEntries (publish sample_triple) ! 2)"
    by (simp add: sample_triple_def sample_entry_def)
  have k: "\<forall>k. 2 < k \<and> k < length (AllEntries (publish sample_triple)) \<longrightarrow>
             Slug (AllEntries (publish sample_triple) ! k) \<noteq> Slug (AllEntries (publish sample_triple) ! 2)"
    by (auto simp: sample_triple_def)
  have "fmlookup (entryIndexBySlug (publish sample_triple))
          (Slug (AllEntries (publish sample_triple) ! 1)) = Some (int 2)"
    by (rule index_last_duplicate_wins [OF l _ n s k]) simp
  then have "fmlookup (entryIndexBySlug (publish sample_triple)) ''casa'' = Some 2"
    by (simp add: sample_triple_def sample_entry_def)
  with l n s show ?thesis by simp
qed

section \<open>The domain of GetEntriesByFirstLetter\<close>

text \<open>
  C10, as stated, fails: the first byte of the argument is not read unconditionally, but
  only once an entry with a non-empty normalized title is met. After loading a document
  without entries, \<open>GetEntriesByFirstLetter\<close> returns the empty list for the empty string,
  although indexing the empty string at 0 is out of range.
\<close>

theorem GetEntriesByFirstLetter_empty_letter_counterexample:
  "LoadDataFromFile (env_decoding sample_no_entries) ''data/data.json.gz''
     = Inr (publish sample_no_entries) \<and>
   GetEntriesByFirstLetter (publish sample_no_entries) '''' = Inr [] \<and>
   index_at '''' 0 = (Inl IndexOutOfRange :: panic + char)"
  by (simp add: LoadDataFromFile_success GetEntriesByFirstLetter_def sample_no_entries_def
      index_at_def)

text \<open>
  C10, amended. For every non-empty argument \<open>GetEntriesByFirstLetter\<close> returns a result
  (each index access is in bounds), and the result depends only on the first byte of the
  argument. For the empty string it panics with an index out of range exactly when some
  entry has a non-empty normalized title, and returns the empty list otherwise.
\<close>

theorem GetEntriesByFirstLetter_domain:
  "(l \<noteq> [] \<longrightarrow> (\<exists>r. GetEntriesByFirstLetter g l = Inr r)) \<and>
   (l \<noteq> [] \<and> l' \<noteq> [] \<and> l ! 0 = l' ! 0 \<longrightarrow>
      GetEntriesByFirstLetter g l = GetEntriesByFirstLetter g l') \<and>
   GetEntriesByFirstLetter g [] =
     (if \<exists>e \<in> set (AllEntries g). NormalizedTitle e \<noteq> [] then Inl IndexOutOfRange else Inr [])"
proof (intro conjI impI)
  assume "l \<noteq> []"
  then obtain c cs where "l = c # cs" by (cases l) auto
  then show "\<exists>r. GetEntriesByFirstLetter g l = Inr r"
    by (simp add: GetEntriesByFirstLetter_def GetEntriesByFirstLetter_loop_eq)
next
  assume "l \<noteq> [] \<and> l' \<noteq> [] \<and> l ! 0 = l' ! 0"
  then obtain c cs cs' where "l = c # cs" "l' = c # cs'"
    by (cases l; cases l') auto
  then show "GetEntriesByFirstLetter g l = GetEntriesByFirstLetter g l'"
    by (simp add: GetEntriesByFirstLetter_def GetEntriesByFirstLetter_loop_eq)
next
  show "GetEntriesByFirstLetter g [] =
     (if \<exists>e \<in> set (AllEntries g). NormalizedTitle e \<noteq> [] then Inl IndexOutOfRange else Inr [])"
    by (simp add: GetEntriesByFirstLetter_def GetEntriesByFirstLetter_loop_empty)
qed

theorem GetEntriesByFirstLetter_domain_witness:
  "GetEntriesByFirstLetter (publish sample_data) ''q''
     = GetEntriesByFirstLetter (publish sample_data) ''qu'' \<and>
   GetEntriesByFirstLetter (publish sample_data) ''q''
     = Inr [\<lparr> le_Slug = ''quatre'', le_DisplayTitle = ''Quatre'' \<rparr>] \<and>
   GetEntriesByFirstLetter (publish sample_data) '''' = Inl IndexOutOfRange"
proof -
  have "GetEntriesByFirstLetter (publish sample_data) ''q''
     = Inr [\<lparr> le_Slug = ''quatre'', le_DisplayTitle = ''Quatre'' \<rparr>]"
    by (simp add: GetEntriesByFirstLetter_def sample_data_def sample_entry_def index_at_def
        template_HTML_def)
  then show ?thesis
    using GetEntriesByFirstLetter_domain [of "''q''" "publish sample_data" "''qu''"]
    by (simp add: sample_data_def sample_entry_def)
qed

end
